theory Spec2Isabelle
  imports Complex_Main "HOL-Library.AList"
begin

section \<open>HelioCAD: canvas geometry, file codec and plugin registry\<close>

text \<open>
  A shallow embedding of \<^verbatim>\<open>src/HelioCAD.py\<close>. Coordinates are Python floats in the
  source; they are modelled as real numbers with exact arithmetic, so IEEE rounding,
  infinities and NaN are outside the model. Calls into Qt, \<^verbatim>\<open>json\<close> and
  \<^verbatim>\<open>svgwrite\<close> are modelled by what they are documented to compute.
\<close>

subsection \<open>Values read from and written to a save file\<close>

text \<open>
  What \<^verbatim>\<open>json.load\<close> returns and \<^verbatim>\<open>json.dump\<close> accepts: the parsed value, not its
  text. A Python \<^verbatim>\<open>dict\<close> is an association list read with \<open>map_of\<close>.
\<close>

datatype json =
    JNull
  | JBool bool
  | JNum real
  | JStr string
  | JArr "json list"
  | JObj "(string \<times> json) list"

subsection \<open>Points and shapes\<close>

datatype QPointF = QPointF (xp: real) (yp: real)

text \<open>
  A shape is the tuple \<^verbatim>\<open>(tool, start, end)\<close>. The tool is whatever Python value was
  stored: a string from the toolbar, or any value found under \<^verbatim>\<open>"tool"\<close> in a file.
\<close>

type_synonym shape = "json \<times> QPointF \<times> QPointF"

definition GRID_SIZE :: int where
  "GRID_SIZE = 20"

text \<open>
  Python's built-in \<^verbatim>\<open>round(x)\<close> on a float with no digits argument: the nearest
  integer, a tie going to the even neighbour.
\<close>

definition py_round :: "real \<Rightarrow> int" where
  "py_round v =
     (let f = \<lfloor>v\<rfloor>; d = v - of_int f
      in if d < 1 / 2 then f
         else if 1 / 2 < d then f + 1
         else if even f then f else f + 1)"

text \<open>\<^verbatim>\<open>Canvas.snap\<close>\<close>

fun snap :: "QPointF \<Rightarrow> QPointF" where
  "snap (QPointF px py) =
     QPointF (of_int (py_round (px / of_int GRID_SIZE) * GRID_SIZE))
             (of_int (py_round (py / of_int GRID_SIZE) * GRID_SIZE))"

text \<open>\<^verbatim>\<open>QPointF.__sub__\<close> and \<^verbatim>\<open>QPointF.manhattanLength\<close> of Qt: the sum of the absolute
  values of the two coordinates.\<close>

fun qpoint_sub :: "QPointF \<Rightarrow> QPointF \<Rightarrow> QPointF" where
  "qpoint_sub (QPointF ax ay) (QPointF bx by) = QPointF (ax - bx) (ay - by)"

fun manhattanLength :: "QPointF \<Rightarrow> real" where
  "manhattanLength (QPointF px py) = \<bar>px\<bar> + \<bar>py\<bar>"

text \<open>\<^verbatim>\<open>Canvas.rect_from_points\<close>\<close>

fun rect_from_points :: "QPointF \<Rightarrow> QPointF \<Rightarrow> real \<times> real \<times> real \<times> real" where
  "rect_from_points (QPointF x1 y1) (QPointF x2 y2) =
     (min x1 x2, min y1 y2, \<bar>x2 - x1\<bar>, \<bar>y2 - y1\<bar>)"

text \<open>The calls \<^verbatim>\<open>Canvas.draw_shape\<close> makes on the painter, in order.\<close>

datatype paint_call =
    DrawLine QPointF QPointF
  | DrawRect real real real real
  | DrawEllipse QPointF real real

definition draw_shape :: "json \<Rightarrow> QPointF \<Rightarrow> QPointF \<Rightarrow> paint_call list" where
  "draw_shape tool start end' =
     (if tool = JStr ''line'' then [DrawLine start end']
      else if tool = JStr ''rectangle'' then
        (case rect_from_points start end' of (rx, ry, w, h) \<Rightarrow> [DrawRect rx ry w h])
      else if tool = JStr ''circle'' then
        (let radius = manhattanLength (qpoint_sub start end')
         in [DrawEllipse start radius radius])
      else [])"

text \<open>The exceptions raised in the code modelled here.\<close>

datatype py_error = KeyError string | TypeError

text \<open>
  \<^verbatim>\<open>Canvas.export_svg\<close> builds the drawing with \<^verbatim>\<open>svgwrite\<close> under
  \<^verbatim>\<open>profile='tiny'\<close>, whose checks are on by default. Setting a numeric attribute of
  an element raises \<^verbatim>\<open>TypeError\<close> unless the number lies between -32767.9999 and
  32767.9999; and \<^verbatim>\<open>dwg.save()\<close> writes every float rounded to 4 decimals with
  Python's \<^verbatim>\<open>round(value, 4)\<close>.
\<close>

definition tiny_number :: "real \<Rightarrow> bool" where
  "tiny_number v \<longleftrightarrow> - 32767.9999 \<le> v \<and> v \<le> 32767.9999"

definition tiny_round :: "real \<Rightarrow> real" where
  "tiny_round v = of_int (py_round (v * 10000)) / 10000"

datatype svg_element =
    SvgLine "real \<times> real" "real \<times> real" string
  | SvgRect "real \<times> real" "real \<times> real" string string
  | SvgCircle "real \<times> real" real string string

text \<open>\<^verbatim>\<open>dwg.line\<close>, \<^verbatim>\<open>dwg.rect\<close> and \<^verbatim>\<open>dwg.circle\<close>: the element, or the error of the
  first numeric attribute out of range.\<close>

definition svg_line :: "real \<times> real \<Rightarrow> real \<times> real \<Rightarrow> string \<Rightarrow> py_error + svg_element" where
  "svg_line start end' stroke =
     (if tiny_number (fst start) \<and> tiny_number (snd start)
         \<and> tiny_number (fst end') \<and> tiny_number (snd end')
      then Inr (SvgLine start end' stroke) else Inl TypeError)"

definition svg_rect ::
  "real \<times> real \<Rightarrow> real \<times> real \<Rightarrow> string \<Rightarrow> string \<Rightarrow> py_error + svg_element" where
  "svg_rect insert' size' stroke fill =
     (if tiny_number (fst insert') \<and> tiny_number (snd insert')
         \<and> tiny_number (fst size') \<and> tiny_number (snd size')
      then Inr (SvgRect insert' size' stroke fill) else Inl TypeError)"

definition svg_circle :: "real \<times> real \<Rightarrow> real \<Rightarrow> string \<Rightarrow> string \<Rightarrow> py_error + svg_element" where
  "svg_circle center r stroke fill =
     (if tiny_number (fst center) \<and> tiny_number (snd center) \<and> tiny_number r
      then Inr (SvgCircle center r stroke fill) else Inl TypeError)"

text \<open>The body of the loop of \<^verbatim>\<open>Canvas.export_svg\<close>: the elements one shape adds to
  the drawing (none for a tool that is none of the three), or the error raised.\<close>

fun export_shape :: "string \<Rightarrow> shape \<Rightarrow> py_error + svg_element list" where
  "export_shape stroke_color (tool, QPointF x1 y1, QPointF x2 y2) =
     (if tool = JStr ''line'' then
        (case svg_line (x1, y1) (x2, y2) stroke_color of
           Inl e \<Rightarrow> Inl e | Inr el \<Rightarrow> Inr [el])
      else if tool = JStr ''rectangle'' then
        (case svg_rect (min x1 x2, min y1 y2) (\<bar>x2 - x1\<bar>, \<bar>y2 - y1\<bar>) stroke_color ''none'' of
           Inl e \<Rightarrow> Inl e | Inr el \<Rightarrow> Inr [el])
      else if tool = JStr ''circle'' then
        (let radius = ((x2 - x1)\<^sup>2 + (y2 - y1)\<^sup>2) powr (1 / 2)
         in case svg_circle (x1, y1) radius stroke_color ''none'' of
              Inl e \<Rightarrow> Inl e | Inr el \<Rightarrow> Inr [el])
      else Inr [])"

text \<open>The loop: \<open>els\<close> is the list of elements of the drawing so far.\<close>

fun export_items :: "svg_element list \<Rightarrow> string \<Rightarrow> shape list \<Rightarrow> py_error + svg_element list" where
  "export_items els stroke_color [] = Inr els"
| "export_items els stroke_color (sh # rest) =
     (case export_shape stroke_color sh of
        Inl e \<Rightarrow> Inl e
      | Inr new \<Rightarrow> export_items (els @ new) stroke_color rest)"

text \<open>An element as \<^verbatim>\<open>dwg.save()\<close> writes it.\<close>

fun svg_written :: "svg_element \<Rightarrow> svg_element" where
  "svg_written (SvgLine (ax, ay) (bx, by) stroke) =
     SvgLine (tiny_round ax, tiny_round ay) (tiny_round bx, tiny_round by) stroke"
| "svg_written (SvgRect (rx, ry) (w, h) stroke fill) =
     SvgRect (tiny_round rx, tiny_round ry) (tiny_round w, tiny_round h) stroke fill"
| "svg_written (SvgCircle (cx, cy) r stroke fill) =
     SvgCircle (tiny_round cx, tiny_round cy) (tiny_round r) stroke fill"

text \<open>
  \<^verbatim>\<open>Canvas.export_svg\<close>: the elements written to the file, in order, or the error
  raised inside the loop, in which case \<^verbatim>\<open>dwg.save()\<close> is not reached and no file is
  written.
\<close>

definition export_svg :: "shape list \<Rightarrow> string \<Rightarrow> py_error + svg_element list" where
  "export_svg shps color_mode =
     (let stroke_color = (if color_mode = ''light'' then ''black'' else ''white'')
      in case export_items [] stroke_color shps of
           Inl e \<Rightarrow> Inl e
         | Inr els \<Rightarrow> Inr (map svg_written els))"

subsection \<open>The canvas and its mouse events\<close>

record Canvas =
  shapes :: "shape list"
  current_tool :: json
  drawing :: bool
  start_point :: "QPointF option"
  end_point :: "QPointF option"
  color_mode :: string

definition Canvas_init :: Canvas where
  "Canvas_init =
     \<lparr>shapes = [], current_tool = JStr ''line'', drawing = False,
      start_point = None, end_point = None, color_mode = ''light''\<rparr>"

datatype MouseButton = NoButton | LeftButton | RightButton | MiddleButton | OtherButton nat

record QMouseEvent =
  button :: MouseButton
  position :: QPointF

definition mousePressEvent :: "Canvas \<Rightarrow> QMouseEvent \<Rightarrow> Canvas" where
  "mousePressEvent c ev =
     (if button ev = LeftButton
      then c\<lparr>drawing := True, start_point := Some (snap (position ev))\<rparr>
      else c)"

definition mouseMoveEvent :: "Canvas \<Rightarrow> QMouseEvent \<Rightarrow> Canvas" where
  "mouseMoveEvent c ev =
     (if drawing c then c\<lparr>end_point := Some (snap (position ev))\<rparr> else c)"

text \<open>
  On release the shape \<^verbatim>\<open>(current_tool, start_point, end_point)\<close> is appended. The start
  point is \<^verbatim>\<open>None\<close> only if \<^verbatim>\<open>drawing\<close> was set without a press, which no method of the
  class does; the shape list holds points, so that case appends nothing here.
\<close>

definition mouseReleaseEvent :: "Canvas \<Rightarrow> QMouseEvent \<Rightarrow> Canvas" where
  "mouseReleaseEvent c ev =
     (if drawing c then
        (let e = snap (position ev)
         in c\<lparr>shapes := (case start_point c of
                            Some s \<Rightarrow> shapes c @ [(current_tool c, s, e)]
                          | None \<Rightarrow> shapes c),
               drawing := False, start_point := None, end_point := None\<rparr>)
      else c)"

subsection \<open>The native save format\<close>

text \<open>
  \<^verbatim>\<open>item[key]\<close> with a string key: a dictionary looks the key up and raises
  \<^verbatim>\<open>KeyError\<close> when it is absent; every other JSON value raises \<^verbatim>\<open>TypeError\<close>.
\<close>

fun py_getitem :: "json \<Rightarrow> string \<Rightarrow> py_error + json" where
  "py_getitem (JObj kvs) k =
     (case map_of kvs k of None \<Rightarrow> Inl (KeyError k) | Some v \<Rightarrow> Inr v)"
| "py_getitem _ k = Inl TypeError"

text \<open>
  Iterating a value, as \<^verbatim>\<open>for item in data\<close> and the unpacking \<^verbatim>\<open>*value\<close> do: a list
  gives its elements, a string its characters, a dictionary its keys; numbers, booleans
  and \<^verbatim>\<open>None\<close> are not iterable.
\<close>

fun py_iter :: "json \<Rightarrow> py_error + json list" where
  "py_iter (JArr vs) = Inr vs"
| "py_iter (JStr s) = Inr (map (\<lambda>ch. JStr [ch]) s)"
| "py_iter (JObj kvs) = Inr (map (\<lambda>kv. JStr (fst kv)) kvs)"
| "py_iter _ = Inl TypeError"

text \<open>
  The constructor call \<^verbatim>\<open>QPointF(*args)\<close> on values from a file: no argument gives the
  null point, two numbers give that point (a Python \<^verbatim>\<open>bool\<close> is an \<^verbatim>\<open>int\<close> and
  converts to 1.0 or 0.0), anything else matches no overload.
\<close>

fun as_double :: "json \<Rightarrow> real option" where
  "as_double (JNum r) = Some r"
| "as_double (JBool b) = Some (if b then 1 else 0)"
| "as_double _ = None"

fun QPointF_new :: "json list \<Rightarrow> py_error + QPointF" where
  "QPointF_new [] = Inr (QPointF 0 0)"
| "QPointF_new [a, b] =
     (case as_double a of
        None \<Rightarrow> Inl TypeError
      | Some px \<Rightarrow>
          (case as_double b of None \<Rightarrow> Inl TypeError | Some py \<Rightarrow> Inr (QPointF px py)))"
| "QPointF_new _ = Inl TypeError"

text \<open>\<^verbatim>\<open>QPointF(*item[key])\<close>\<close>

definition point_field :: "json \<Rightarrow> string \<Rightarrow> py_error + QPointF" where
  "point_field item k =
     (case py_getitem item k of
        Inl e \<Rightarrow> Inl e
      | Inr v \<Rightarrow> (case py_iter v of Inl e \<Rightarrow> Inl e | Inr args \<Rightarrow> QPointF_new args))"

text \<open>The body of the loop of \<^verbatim>\<open>Canvas.load_hcad\<close>, up to the tuple it appends.\<close>

definition load_item :: "json \<Rightarrow> py_error + shape" where
  "load_item item =
     (case py_getitem item ''tool'' of
        Inl e \<Rightarrow> Inl e
      | Inr tool \<Rightarrow>
          (case point_field item ''start'' of
             Inl e \<Rightarrow> Inl e
           | Inr start \<Rightarrow>
               (case point_field item ''end'' of
                  Inl e \<Rightarrow> Inl e
                | Inr end' \<Rightarrow> Inr (tool, start, end'))))"

text \<open>The loop itself: \<open>shps\<close> is \<^verbatim>\<open>self.shapes\<close>, which an exception leaves as it is at
  that moment.\<close>

fun load_items :: "shape list \<Rightarrow> json list \<Rightarrow> shape list \<times> py_error option" where
  "load_items shps [] = (shps, None)"
| "load_items shps (item # rest) =
     (case load_item item of
        Inl e \<Rightarrow> (shps, Some e)
      | Inr sh \<Rightarrow> load_items (shps @ [sh]) rest)"

text \<open>
  \<^verbatim>\<open>Canvas.load_hcad\<close>, from the value \<^verbatim>\<open>json.load\<close> returned: the canvas afterwards and
  the exception raised, if any.
\<close>

definition load_hcad :: "Canvas \<Rightarrow> json \<Rightarrow> Canvas \<times> py_error option" where
  "load_hcad c data =
     (let c1 = c\<lparr>shapes := []\<rparr>
      in case py_iter data of
           Inl e \<Rightarrow> (c1, Some e)
         | Inr items \<Rightarrow>
             (case load_items (shapes c1) items of (shps, r) \<Rightarrow> (c1\<lparr>shapes := shps\<rparr>, r)))"

text \<open>\<^verbatim>\<open>Canvas.save_hcad\<close>: the value handed to \<^verbatim>\<open>json.dump\<close>.\<close>

fun save_item :: "shape \<Rightarrow> json" where
  "save_item (tool, start, end') =
     JObj [(''tool'', tool),
           (''start'', JArr [JNum (xp start), JNum (yp start)]),
           (''end'', JArr [JNum (xp end'), JNum (yp end')])]"

definition save_hcad :: "Canvas \<Rightarrow> json" where
  "save_hcad c = JArr (map save_item (shapes c))"

text \<open>
  The failures deserialisation is specified to reject, in the words of the
  specification: a record with a required field missing, and a coordinate list whose
  length is neither 2 nor 0 (the length 0 is a call of the constructor without
  arguments).
\<close>

fun bad_pair :: "json \<Rightarrow> bool" where
  "bad_pair (JArr vs) = (length vs = 1 \<or> 2 < length vs)"
| "bad_pair _ = False"

definition bad_point_field :: "(string \<times> json) list \<Rightarrow> string \<Rightarrow> bool" where
  "bad_point_field kvs k = (case map_of kvs k of None \<Rightarrow> True | Some v \<Rightarrow> bad_pair v)"

fun malformed_record :: "json \<Rightarrow> bool" where
  "malformed_record (JObj kvs) =
     (map_of kvs ''tool'' = None \<or> bad_point_field kvs ''start'' \<or> bad_point_field kvs ''end'')"
| "malformed_record _ = False"

subsection \<open>The plugin registry\<close>

text \<open>
  Widgets are Python objects compared by identity: the canvas, and whatever a plugin's
  \<^verbatim>\<open>register_plugin\<close> returned. A module handle is opaque.
\<close>

datatype widget = CanvasWidget | PluginWidget nat

record PluginLoader =
  plugins :: "(string \<times> nat) list"
  plugin_widgets :: "(string \<times> widget) list"
  tab_widget :: "(widget \<times> string) list"
  shown :: "widget set"

text \<open>
  The dictionaries keep insertion order, and an assignment to an existing key keeps the
  key's place: \<open>AList.update\<close>. \<open>tab_widget\<close> is the tab container, each tab a page
  and its label; \<open>shown\<close> holds the widgets on which \<^verbatim>\<open>show()\<close> has been called.
  Console output is not part of the state.
\<close>

definition PLUGIN_FOLDER :: string where
  "PLUGIN_FOLDER = ''modules''"

text \<open>
  What importing a file and calling its \<^verbatim>\<open>register_plugin\<close> came to: the path is not a
  file; an exception inside the \<^verbatim>\<open>try\<close>; a module without \<^verbatim>\<open>register_plugin\<close>; or a
  module handle with the widget returned, \<open>None\<close> standing for any false value.
\<close>

datatype load_outcome = NotAFile | LoadFailed | MissingRegister | Registered nat "widget option"

text \<open>\<^verbatim>\<open>os.path.splitext(os.path.basename(path))[0]\<close> on a POSIX path: the last component,
  cut at its last dot unless only dots precede that dot.\<close>

definition basename :: "string \<Rightarrow> string" where
  "basename path = rev (takeWhile (\<lambda>ch. ch \<noteq> CHR ''/'') (rev path))"

definition splitext_root :: "string \<Rightarrow> string" where
  "splitext_root b =
     (if CHR ''.'' \<in> set b then
        (let stem = rev (tl (dropWhile (\<lambda>ch. ch \<noteq> CHR ''.'') (rev b)))
         in if list_ex (\<lambda>ch. ch \<noteq> CHR ''.'') stem then stem else b)
      else b)"

definition plugin_name :: "string \<Rightarrow> string" where
  "plugin_name path = splitext_root (basename path)"

definition load_plugin :: "PluginLoader \<Rightarrow> string \<Rightarrow> load_outcome \<Rightarrow> PluginLoader" where
  "load_plugin pl path outcome =
     (case outcome of
        NotAFile \<Rightarrow> pl
      | LoadFailed \<Rightarrow> pl
      | MissingRegister \<Rightarrow> pl
      | Registered modl wopt \<Rightarrow>
          (let name = plugin_name path;
               pl1 = pl\<lparr>plugins := AList.update name modl (plugins pl)\<rparr>
           in case wopt of
                None \<Rightarrow> pl1
              | Some w \<Rightarrow> pl1\<lparr>plugin_widgets := AList.update name w (plugin_widgets pl1)\<rparr>))"

definition py_endswith :: "string \<Rightarrow> string \<Rightarrow> bool" where
  "py_endswith s suf = (length suf \<le> length s \<and> drop (length s - length suf) s = suf)"

text \<open>
  \<^verbatim>\<open>load_plugins_from_folder\<close>: the folder is \<open>None\<close> when it is not a directory, and
  otherwise the entries \<^verbatim>\<open>os.listdir\<close> gave, each with what loading it comes to.
\<close>

fun load_entries :: "PluginLoader \<Rightarrow> string \<Rightarrow> (string \<times> load_outcome) list \<Rightarrow> PluginLoader" where
  "load_entries pl folder [] = pl"
| "load_entries pl folder ((filename, outcome) # rest) =
     (if py_endswith filename ''.py''
      then load_entries (load_plugin pl (folder @ ''/'' @ filename) outcome) folder rest
      else load_entries pl folder rest)"

definition load_plugins_from_folder ::
  "PluginLoader \<Rightarrow> string \<Rightarrow> (string \<times> load_outcome) list option \<Rightarrow> PluginLoader" where
  "load_plugins_from_folder pl folder listing =
     (case listing of None \<Rightarrow> pl | Some entries \<Rightarrow> load_entries pl folder entries)"

text \<open>\<^verbatim>\<open>PluginLoader._tab_for_plugin\<close>: \<^verbatim>\<open>plugin_widgets.get(name)\<close> is \<^verbatim>\<open>None\<close> for a name
  without a widget, and no page equals \<^verbatim>\<open>None\<close>.\<close>

definition tab_for_plugin :: "PluginLoader \<Rightarrow> string \<Rightarrow> bool" where
  "tab_for_plugin pl name =
     list_ex (\<lambda>tab. Some (fst tab) = map_of (plugin_widgets pl) name) (tab_widget pl)"

text \<open>\<^verbatim>\<open>str.capitalize\<close> on ASCII letters; other characters are left as they are.\<close>

definition ascii_upper :: "char \<Rightarrow> char" where
  "ascii_upper ch =
     (let n = of_char ch :: nat in if 97 \<le> n \<and> n \<le> 122 then char_of (n - 32) else ch)"

definition ascii_lower :: "char \<Rightarrow> char" where
  "ascii_lower ch =
     (let n = of_char ch :: nat in if 65 \<le> n \<and> n \<le> 90 then char_of (n + 32) else ch)"

fun capitalize :: "string \<Rightarrow> string" where
  "capitalize [] = []"
| "capitalize (ch # rest) = ascii_upper ch # map ascii_lower rest"

definition enable_plugin :: "PluginLoader \<Rightarrow> string \<Rightarrow> PluginLoader" where
  "enable_plugin pl name =
     (case map_of (plugin_widgets pl) name of
        None \<Rightarrow> pl
      | Some w \<Rightarrow>
          (let pl1 = (if \<not> tab_for_plugin pl name
                      then pl\<lparr>tab_widget := tab_widget pl @ [(w, capitalize name)]\<rparr>
                      else pl)
           in pl1\<lparr>shown := insert w (shown pl1)\<rparr>))"

text \<open>\<^verbatim>\<open>QTabWidget.indexOf\<close> (the first tab holding the page, or \<open>-1\<close>) and
  \<^verbatim>\<open>QTabWidget.removeTab\<close>.\<close>

fun indexOf :: "(widget \<times> string) list \<Rightarrow> widget \<Rightarrow> int" where
  "indexOf [] w = - 1"
| "indexOf (tab # tabs) w =
     (if fst tab = w then 0
      else (let i = indexOf tabs w in if i = - 1 then - 1 else i + 1))"

definition removeTab :: "(widget \<times> string) list \<Rightarrow> int \<Rightarrow> (widget \<times> string) list" where
  "removeTab tabs i =
     (if 0 \<le> i \<and> i < int (length tabs) then take (nat i) tabs @ drop (Suc (nat i)) tabs
      else tabs)"

definition disable_plugin :: "PluginLoader \<Rightarrow> string \<Rightarrow> PluginLoader" where
  "disable_plugin pl name =
     (case map_of (plugin_widgets pl) name of
        None \<Rightarrow> pl
      | Some w \<Rightarrow>
          (let index = indexOf (tab_widget pl) w
           in if index \<noteq> - 1 then pl\<lparr>tab_widget := removeTab (tab_widget pl) index\<rparr>
              else pl))"

subsection \<open>Start-up of the main window\<close>

text \<open>What \<^verbatim>\<open>QSettings.value("enabled_modules", [])\<close> returned: a list of names, or a value
  that is not a list.\<close>

datatype setting = ListValue "string list" | OtherValue

definition PluginLoader_init :: PluginLoader where
  "PluginLoader_init =
     \<lparr>plugins = [], plugin_widgets = [],
      tab_widget = [(CanvasWidget, ''Core (2D)'')], shown = {}\<rparr>"

definition reconcile_step :: "string list \<Rightarrow> string \<Rightarrow> PluginLoader \<Rightarrow> PluginLoader" where
  "reconcile_step enabled_modules mod_name pl =
     (if mod_name \<in> set enabled_modules then enable_plugin pl mod_name
      else disable_plugin pl mod_name)"

text \<open>The part of \<^verbatim>\<open>HelioCAD.__init__\<close> that sets up the plugin loader: the tab container
  with the canvas tab, the plugins of the folder, then one call for each key of
  \<^verbatim>\<open>plugins\<close>.\<close>

definition HelioCAD_init ::
  "(string \<times> load_outcome) list option \<Rightarrow> setting \<Rightarrow> PluginLoader" where
  "HelioCAD_init listing saved =
     (let pl = load_plugins_from_folder PluginLoader_init PLUGIN_FOLDER listing;
          enabled_modules = (case saved of ListValue names \<Rightarrow> names | OtherValue \<Rightarrow> [])
      in fold (reconcile_step enabled_modules) (map fst (plugins pl)) pl)"

section \<open>Properties\<close>

subsection \<open>Rounding to the grid\<close>

lemma py_round_of_int: "py_round (of_int k) = k"
  by (simp add: py_round_def)

lemma py_round_near: "\<bar>v - of_int (py_round v)\<bar> \<le> 1 / 2"
  unfolding py_round_def Let_def by (auto simp: abs_if) linarith+

lemma py_round_tie: "\<bar>v - of_int (py_round v)\<bar> = 1 / 2 \<Longrightarrow> even (py_round v)"
  unfolding py_round_def Let_def by (auto simp: abs_if split: if_splits) linarith+

lemma snap_coord_near:
  fixes v :: real
  shows "\<bar>v - of_int (py_round (v / 20) * 20)\<bar> \<le> 10"
proof -
  have "\<bar>v / 20 - of_int (py_round (v / 20))\<bar> \<le> 1 / 2" by (rule py_round_near)
  then show ?thesis by (simp add: abs_if split: if_splits)
qed

lemma snap_coord_tie:
  fixes v :: real
  assumes "\<bar>v - of_int (py_round (v / 20) * 20)\<bar> = 10"
  shows "even (py_round (v / 20))"
proof -
  from assms have "\<bar>v / 20 - of_int (py_round (v / 20))\<bar> = 1 / 2"
    by (simp add: abs_if split: if_splits)
  then show ?thesis by (rule py_round_tie)
qed

text \<open>
  Claim C3, as the code has it. Each coordinate of \<open>snap\<close> is computed from that
  coordinate alone and is the multiple \<open>20 * k\<close> of the grid size with
  \<open>k = round(v / 20)\<close>; it lies within 10 of the input, so it is a nearest multiple;
  and when the input is exactly halfway between two multiples, the one chosen has
  \<open>k\<close> even (Python's \<^verbatim>\<open>round\<close> sends a tie to the even integer), not the larger one.
\<close>

theorem snap_nearest_ties_even:
  "(\<exists>k::int. xp (snap (QPointF a b)) = of_int (k * 20)
       \<and> k = py_round (a / 20)
       \<and> \<bar>a - xp (snap (QPointF a b))\<bar> \<le> 10
       \<and> (\<bar>a - xp (snap (QPointF a b))\<bar> = 10 \<longrightarrow> even k))
   \<and> (\<exists>k::int. yp (snap (QPointF a b)) = of_int (k * 20)
       \<and> k = py_round (b / 20)
       \<and> \<bar>b - yp (snap (QPointF a b))\<bar> \<le> 10
       \<and> (\<bar>b - yp (snap (QPointF a b))\<bar> = 10 \<longrightarrow> even k))"
  using snap_coord_near[of a] snap_coord_near[of b] snap_coord_tie[of a] snap_coord_tie[of b]
  by (simp add: GRID_SIZE_def)

text \<open>The two ties 10 and 30: the first goes down to 0, the second up to 40.\<close>

theorem snap_nearest_ties_even_witness:
  "\<bar>10 - xp (snap (QPointF 10 30))\<bar> = 10 \<and> xp (snap (QPointF 10 30)) = 0
   \<and> \<bar>30 - yp (snap (QPointF 10 30))\<bar> = 10 \<and> yp (snap (QPointF 10 30)) = 40"
  using snap_nearest_ties_even[of 10 30]
  by (simp add: GRID_SIZE_def py_round_def)

text \<open>Claim C3 as stated fails: the coordinate 10 is snapped to 0, not to 20.\<close>

theorem snap_half_up_counterexample:
  "snap (QPointF 10 10) = QPointF 0 0 \<and> snap (QPointF 10 10) \<noteq> QPointF 20 20"
  by (simp add: GRID_SIZE_def py_round_def)

text \<open>Claim C9: \<open>snap\<close> is idempotent, \<open>snap (snap p) = snap p\<close> for every point.\<close>

theorem snap_idempotent: "snap (snap p) = snap p"
  by (cases p) (simp add: GRID_SIZE_def py_round_of_int)

subsection \<open>Circle radius on screen\<close>

text \<open>
  Claim C2, as the code has it. For a circle from \<open>(x1, y1)\<close> to \<open>(x2, y2)\<close> the
  drawing routine draws an ellipse centred at the start point whose two radii are the
  Manhattan length \<open>\<bar>x2 - x1\<bar> + \<bar>y2 - y1\<bar>\<close>; from \<open>(0, 0)\<close> to \<open>(3, 4)\<close> that
  radius is 7.
\<close>

theorem draw_circle_radius_manhattan:
  "draw_shape (JStr ''circle'') (QPointF x1 y1) (QPointF x2 y2) =
     [DrawEllipse (QPointF x1 y1) (\<bar>x2 - x1\<bar> + \<bar>y2 - y1\<bar>) (\<bar>x2 - x1\<bar> + \<bar>y2 - y1\<bar>)]
   \<and> draw_shape (JStr ''circle'') (QPointF 0 0) (QPointF 3 4) = [DrawEllipse (QPointF 0 0) 7 7]"
  by (simp add: draw_shape_def Let_def abs_minus_commute)

text \<open>Claim C2 as stated fails: from \<open>(0, 0)\<close> to \<open>(3, 4)\<close> the radius drawn is 7, not
  the larger of the two axis distances, 4.\<close>

theorem draw_circle_radius_max_counterexample:
  "draw_shape (JStr ''circle'') (QPointF 0 0) (QPointF 3 4) = [DrawEllipse (QPointF 0 0) 7 7]
   \<and> draw_shape (JStr ''circle'') (QPointF 0 0) (QPointF 3 4)
       \<noteq> [DrawEllipse (QPointF 0 0) (max \<bar>3 - 0\<bar> \<bar>4 - 0\<bar>) (max \<bar>3 - 0\<bar> \<bar>4 - 0\<bar>)]"
  by (simp add: draw_shape_def Let_def)

subsection \<open>Circle radius on export\<close>

lemma py_round_between:
  "of_int k - 1 / 2 < v \<Longrightarrow> v < of_int k + 1 / 2 \<Longrightarrow> py_round v = k"
  unfolding py_round_def Let_def by (auto split: if_splits) linarith+

lemma tiny_round_near: "\<bar>tiny_round v - v\<bar> \<le> 1 / 20000"
proof -
  have "\<bar>v * 10000 - of_int (py_round (v * 10000))\<bar> \<le> 1 / 2" by (rule py_round_near)
  then show ?thesis by (simp add: tiny_round_def abs_if field_simps split: if_splits)
qed

lemma tiny_round_of_int: "tiny_round (of_int k) = of_int k"
proof -
  have "py_round (of_int k * 10000) = k * 10000"
    using py_round_of_int[of "k * 10000"] by simp
  then show ?thesis by (simp add: tiny_round_def)
qed

lemma export_shape_error: "export_shape stroke sh = Inl e \<Longrightarrow> e = TypeError"
  by (cases "(stroke, sh)" rule: export_shape.cases)
    (auto simp: svg_line_def svg_rect_def svg_circle_def Let_def split: if_splits)

lemma export_items_error: "export_items els stroke shps = Inl e \<Longrightarrow> e = TypeError"
  by (induction shps arbitrary: els) (auto split: sum.splits dest: export_shape_error)

lemma export_items_append:
  "export_items els stroke (xs @ ys) =
     (case export_items els stroke xs of
        Inl e \<Rightarrow> Inl e
      | Inr els' \<Rightarrow> export_items els' stroke ys)"
  by (induction xs arbitrary: els) (auto split: sum.splits)

lemma export_items_acc:
  "export_items els stroke shps =
     (case export_items [] stroke shps of Inl e \<Rightarrow> Inl e | Inr new \<Rightarrow> Inr (els @ new))"
proof (induction shps arbitrary: els)
  case Nil
  then show ?case by simp
next
  case (Cons sh shps)
  show ?case
  proof (cases "export_shape stroke sh")
    case (Inl e)
    then show ?thesis by simp
  next
    case (Inr new)
    with Cons.IH[of "els @ new"] Cons.IH[of new] show ?thesis
      by (auto split: sum.splits)
  qed
qed

lemma export_svg_error: "export_svg shps cm = Inl e \<Longrightarrow> e = TypeError"
  by (auto simp: export_svg_def Let_def split: sum.splits dest: export_items_error)

lemma export_shape_circle:
  "export_shape stroke (JStr ''circle'', QPointF x1 y1, QPointF x2 y2) =
     (if tiny_number x1 \<and> tiny_number y1 \<and> tiny_number (sqrt ((x2 - x1)\<^sup>2 + (y2 - y1)\<^sup>2))
      then Inr [SvgCircle (x1, y1) (sqrt ((x2 - x1)\<^sup>2 + (y2 - y1)\<^sup>2)) stroke ''none'']
      else Inl TypeError)"
  by (simp add: svg_circle_def powr_half_sqrt Let_def)

text \<open>
  Claim C6, as the code has it. The radius handed to the circle element is the
  Euclidean distance \<open>d = sqrt ((x2 - x1)\<^sup>2 + (y2 - y1)\<^sup>2)\<close>. When the shapes before and
  after the circle export and the centre and \<open>d\<close> lie between -32767.9999 and
  32767.9999, the document written holds, in the circle's place, a circle whose centre
  and radius are those numbers rounded to 4 decimals, so a radius within 0.00005 of
  \<open>d\<close>, with the stroke colour of the theme and no fill. When \<open>d\<close> is outside that
  range the export raises \<^verbatim>\<open>TypeError\<close> and writes nothing. A document holding the
  circle from \<open>(0, 0)\<close> to \<open>(3, 4)\<close> is written with radius 5.
\<close>

theorem export_svg_circle_radius:
  "(export_svg pre cm = Inr before \<and> export_svg post cm = Inr after
      \<and> tiny_number x1 \<and> tiny_number y1 \<and> tiny_number (sqrt ((x2 - x1)\<^sup>2 + (y2 - y1)\<^sup>2)) \<longrightarrow>
      export_svg (pre @ (JStr ''circle'', QPointF x1 y1, QPointF x2 y2) # post) cm =
        Inr (before
             @ SvgCircle (tiny_round x1, tiny_round y1)
                 (tiny_round (sqrt ((x2 - x1)\<^sup>2 + (y2 - y1)\<^sup>2)))
                 (if cm = ''light'' then ''black'' else ''white'') ''none''
             # after))
   \<and> \<bar>tiny_round (sqrt ((x2 - x1)\<^sup>2 + (y2 - y1)\<^sup>2)) - sqrt ((x2 - x1)\<^sup>2 + (y2 - y1)\<^sup>2)\<bar>
        \<le> 1 / 20000
   \<and> (\<not> tiny_number (sqrt ((x2 - x1)\<^sup>2 + (y2 - y1)\<^sup>2)) \<longrightarrow>
        export_svg (pre @ (JStr ''circle'', QPointF x1 y1, QPointF x2 y2) # post) cm
          = Inl TypeError)
   \<and> export_svg [(JStr ''circle'', QPointF 0 0, QPointF 3 4)] ''light'' =
        Inr [SvgCircle (0, 0) 5 ''black'' ''none'']"
proof (intro conjI impI)
  define stroke where "stroke = (if cm = ''light'' then ''black'' else ''white'')"
  let ?d = "sqrt ((x2 - x1)\<^sup>2 + (y2 - y1)\<^sup>2)"
  let ?circle = "(JStr ''circle'', QPointF x1 y1, QPointF x2 y2)"
  have svg: "export_svg shps cm =
      (case export_items [] stroke shps of Inl e \<Rightarrow> Inl e | Inr els \<Rightarrow> Inr (map svg_written els))"
    for shps by (simp add: export_svg_def Let_def stroke_def)
  show "export_svg (pre @ ?circle # post) cm =
        Inr (before @ SvgCircle (tiny_round x1, tiny_round y1) (tiny_round ?d)
               (if cm = ''light'' then ''black'' else ''white'') ''none''
             # after)"
    if h: "export_svg pre cm = Inr before \<and> export_svg post cm = Inr after
      \<and> tiny_number x1 \<and> tiny_number y1 \<and> tiny_number ?d"
  proof -
    from h obtain els1 where e1: "export_items [] stroke pre = Inr els1"
      and b: "before = map svg_written els1"
      by (auto simp: svg split: sum.splits)
    from h obtain els2 where e2: "export_items [] stroke post = Inr els2"
      and a: "after = map svg_written els2"
      by (auto simp: svg split: sum.splits)
    from h have c: "export_shape stroke ?circle = Inr [SvgCircle (x1, y1) ?d stroke ''none'']"
      by (simp add: export_shape_circle del: export_shape.simps)
    have "export_items [] stroke (pre @ ?circle # post)
        = export_items els1 stroke (?circle # post)"
      by (simp add: export_items_append e1 del: export_shape.simps)
    also have "\<dots> = export_items (els1 @ [SvgCircle (x1, y1) ?d stroke ''none'']) stroke post"
      by (simp add: c del: export_shape.simps)
    also have "\<dots> = Inr ((els1 @ [SvgCircle (x1, y1) ?d stroke ''none'']) @ els2)"
      by (subst export_items_acc) (simp add: e2)
    finally have "export_svg (pre @ ?circle # post) cm =
        Inr (before @ SvgCircle (tiny_round x1, tiny_round y1) (tiny_round ?d) stroke ''none''
             # after)"
      by (simp add: svg a b)
    then show ?thesis by (simp only: stroke_def)
  qed
  show "\<bar>tiny_round ?d - ?d\<bar> \<le> 1 / 20000" by (rule tiny_round_near)
  show "export_svg (pre @ ?circle # post) cm = Inl TypeError" if n: "\<not> tiny_number ?d"
  proof -
    from n have c: "export_shape stroke ?circle = Inl TypeError"
      by (simp add: export_shape_circle del: export_shape.simps)
    have "\<exists>e. export_items [] stroke (pre @ ?circle # post) = Inl e"
    proof (cases "export_items [] stroke pre")
      case (Inl e)
      then show ?thesis by (simp add: export_items_append del: export_shape.simps)
    next
      case (Inr els1)
      then show ?thesis by (simp add: export_items_append c del: export_shape.simps)
    qed
    then obtain e where "export_svg (pre @ ?circle # post) cm = Inl e"
      by (auto simp: svg)
    then show ?thesis using export_svg_error by metis
  qed
  have "sqrt ((3::real)\<^sup>2 + 4\<^sup>2) = 5" by (rule real_sqrt_unique) simp_all
  moreover have "tiny_round 5 = 5" using tiny_round_of_int[of 5] by simp
  moreover have "tiny_round 0 = 0" using tiny_round_of_int[of 0] by simp
  ultimately show "export_svg [(JStr ''circle'', QPointF 0 0, QPointF 3 4)] ''light'' =
        Inr [SvgCircle (0, 0) 5 ''black'' ''none'']"
    by (simp add: export_svg_def svg_circle_def tiny_number_def powr_half_sqrt)
qed

theorem export_svg_circle_radius_witness:
  "export_svg [(JStr ''line'', QPointF 0 0, QPointF 20 40)] ''dark''
      = Inr [SvgLine (0, 0) (20, 40) ''white'']
   \<and> export_svg [] ''dark'' = Inr []
   \<and> tiny_number 0 \<and> tiny_number (sqrt ((3 - 0)\<^sup>2 + (4 - 0)\<^sup>2))
   \<and> export_svg ([(JStr ''line'', QPointF 0 0, QPointF 20 40)]
        @ (JStr ''circle'', QPointF 0 0, QPointF 3 4) # []) ''dark''
      = Inr [SvgLine (0, 0) (20, 40) ''white'', SvgCircle (0, 0) 5 ''white'' ''none'']
   \<and> \<not> tiny_number (sqrt ((40000 - 0)\<^sup>2 + (0 - 0)\<^sup>2))
   \<and> export_svg ([] @ (JStr ''circle'', QPointF 0 0, QPointF 40000 0) # []) ''dark''
      = Inl TypeError"
proof -
  have z: "tiny_round 0 = 0" "tiny_round 5 = 5" "tiny_round 20 = 20" "tiny_round 40 = 40"
    using tiny_round_of_int[of 0] tiny_round_of_int[of 5] tiny_round_of_int[of 20]
      tiny_round_of_int[of 40] by simp_all
  have s: "sqrt ((3 - 0)\<^sup>2 + (4 - 0)\<^sup>2) = (5::real)" by (rule real_sqrt_unique) simp_all
  have l: "export_svg [(JStr ''line'', QPointF 0 0, QPointF 20 40)] ''dark''
      = Inr [SvgLine (0, 0) (20, 40) ''white'']"
    using z by (simp add: export_svg_def svg_line_def tiny_number_def)
  have e: "export_svg [] ''dark'' = Inr []" by (simp add: export_svg_def)
  have t: "tiny_number 0" "tiny_number (sqrt ((3 - 0)\<^sup>2 + (4 - 0)\<^sup>2))"
    by (simp_all only: s) (simp_all add: tiny_number_def)
  have far: "\<not> tiny_number (sqrt ((40000 - 0)\<^sup>2 + (0 - 0)\<^sup>2))"
    by (simp add: tiny_number_def)
  from l e t far z s
    export_svg_circle_radius[where pre = "[(JStr ''line'', QPointF 0 0, QPointF 20 40)]"
      and post = "[]" and cm = "''dark''" and before = "[SvgLine (0, 0) (20, 40) ''white'']"
      and after = "[]" and ?x1.0 = 0 and ?y1.0 = 0 and ?x2.0 = 3 and ?y2.0 = 4]
    export_svg_circle_radius[where pre = "[]" and post = "[]" and cm = "''dark''"
      and ?x1.0 = 0 and ?y1.0 = 0 and ?x2.0 = 40000 and ?y2.0 = 0]
  show ?thesis by simp
qed

text \<open>
  Claim C6 as stated fails. The circle from \<open>(0, 0)\<close> to \<open>(20, 20)\<close> is written with
  radius 28.2843, which is not the distance \<open>sqrt 800\<close>; and for the circle from
  \<open>(0, 0)\<close> to \<open>(40000, 0)\<close> no radius is written at all, the export raises.
\<close>

theorem export_svg_circle_radius_counterexample:
  "export_svg [(JStr ''circle'', QPointF 0 0, QPointF 20 20)] ''light'' =
     Inr [SvgCircle (0, 0) (282843 / 10000) ''black'' ''none'']
   \<and> (282843 / 10000 :: real) \<noteq> sqrt ((20 - 0)\<^sup>2 + (20 - 0)\<^sup>2)
   \<and> export_svg [(JStr ''circle'', QPointF 0 0, QPointF 40000 0)] ''light'' = Inl TypeError"
proof -
  have lo: "(2828425 / 100000 :: real) < sqrt 800"
    by (rule real_less_rsqrt) (simp add: power2_eq_square)
  have hi: "sqrt 800 < (2828435 / 100000 :: real)"
    by (rule real_less_lsqrt) (simp_all add: power2_eq_square)
  have r: "py_round (sqrt 800 * 10000) = 282843"
    using lo hi by (intro py_round_between) simp_all
  have ne: "(282843 / 10000 :: real) \<noteq> sqrt 800"
  proof
    assume eq: "(282843 / 10000 :: real) = sqrt 800"
    have "(sqrt 800)\<^sup>2 = (800::real)" by simp
    then have "(282843 / 10000 :: real)\<^sup>2 = 800" by (simp only: eq[symmetric])
    then show False by (simp add: power2_eq_square)
  qed
  have t: "tiny_number (sqrt 800)"
    using lo hi by (simp add: tiny_number_def)
  have z: "tiny_round 0 = 0" using tiny_round_of_int[of 0] by simp
  have far: "\<not> tiny_number 40000" by (simp add: tiny_number_def)
  have a: "export_svg [(JStr ''circle'', QPointF 0 0, QPointF 20 20)] ''light'' =
     Inr [SvgCircle (0, 0) (282843 / 10000) ''black'' ''none'']"
    using t r z by (simp add: export_svg_def svg_circle_def powr_half_sqrt tiny_round_def tiny_number_def)
  have b: "export_svg [(JStr ''circle'', QPointF 0 0, QPointF 40000 0)] ''light'' = Inl TypeError"
    using far by (simp add: export_svg_def svg_circle_def powr_half_sqrt)
  from a b ne show ?thesis by simp
qed

subsection \<open>The drawing state machine\<close>

text \<open>
  Claim C7: on a canvas that is not drawing, a mouse move and a mouse release change
  nothing at all: the canvas afterwards is the canvas before, so the shapes are the
  same and it is still not drawing.
\<close>

theorem idle_move_release_noop:
  "\<not> drawing c \<Longrightarrow> mouseMoveEvent c ev = c \<and> mouseReleaseEvent c ev = c"
  by (simp add: mouseMoveEvent_def mouseReleaseEvent_def)

theorem idle_move_release_noop_witness:
  "\<not> drawing Canvas_init
   \<and> mouseMoveEvent Canvas_init \<lparr>button = NoButton, position = QPointF 33 47\<rparr> = Canvas_init
   \<and> mouseReleaseEvent Canvas_init \<lparr>button = LeftButton, position = QPointF 33 47\<rparr> = Canvas_init"
proof -
  have idle: "\<not> drawing Canvas_init" by (simp add: Canvas_init_def)
  show ?thesis
    using idle idle_move_release_noop[OF idle, of "\<lparr>button = NoButton, position = QPointF 33 47\<rparr>"]
      idle_move_release_noop[OF idle, of "\<lparr>button = LeftButton, position = QPointF 33 47\<rparr>"]
    by simp
qed

text \<open>
  Claim C10: on a canvas that is drawing, a press of the left button leaves the shapes
  as they are, keeps the canvas drawing and replaces the start point by the snap of the
  press position; the shape that was in progress is never committed, since the release
  that follows appends the one shape that starts at the new point.
\<close>

theorem press_while_drawing_discards:
  assumes "drawing c" and "button ev = LeftButton"
  shows "shapes (mousePressEvent c ev) = shapes c
         \<and> drawing (mousePressEvent c ev)
         \<and> start_point (mousePressEvent c ev) = Some (snap (position ev))
         \<and> shapes (mouseReleaseEvent (mousePressEvent c ev) ev') =
             shapes c @ [(current_tool c, snap (position ev), snap (position ev'))]"
  using assms by (simp add: mousePressEvent_def mouseReleaseEvent_def Let_def)

theorem press_while_drawing_discards_witness:
  "drawing (Canvas_init\<lparr>drawing := True, start_point := Some (QPointF 20 20)\<rparr>)
   \<and> button \<lparr>button = LeftButton, position = QPointF 95 41\<rparr> = LeftButton
   \<and> shapes (mousePressEvent (Canvas_init\<lparr>drawing := True, start_point := Some (QPointF 20 20)\<rparr>)
        \<lparr>button = LeftButton, position = QPointF 95 41\<rparr>) = []
   \<and> start_point (mousePressEvent (Canvas_init\<lparr>drawing := True, start_point := Some (QPointF 20 20)\<rparr>)
        \<lparr>button = LeftButton, position = QPointF 95 41\<rparr>) = Some (QPointF 100 40)"
proof -
  let ?c = "Canvas_init\<lparr>drawing := True, start_point := Some (QPointF 20 20)\<rparr>"
  let ?ev = "\<lparr>button = LeftButton, position = QPointF 95 41\<rparr>"
  have d: "drawing ?c" by simp
  have b: "button ?ev = LeftButton" by simp
  have s: "snap (QPointF 95 41) = QPointF 100 40"
    by (simp add: GRID_SIZE_def py_round_def)
  show ?thesis
    using d b s press_while_drawing_discards[OF d b, of ?ev]
    by (simp add: Canvas_init_def)
qed

subsection \<open>Saving and loading\<close>

lemma load_item_save_item: "load_item (save_item sh) = Inr sh"
  by (cases sh) (simp add: load_item_def point_field_def)

lemma load_items_save: "load_items acc (map save_item shps) = (acc @ shps, None)"
  by (induction shps arbitrary: acc) (simp_all add: load_item_save_item)

text \<open>
  Claim C4: loading what was saved gives the document back. For every canvas \<open>d\<close>,
  loading the value \<open>save_hcad d\<close> into any canvas \<open>c\<close> raises nothing and leaves
  \<open>c\<close> with exactly the shapes of \<open>d\<close>: the same order, tools and coordinates. This
  holds for every tool value, so in particular for the three tool names.
\<close>

theorem save_load_roundtrip:
  "load_hcad c (save_hcad d) = (c\<lparr>shapes := shapes d\<rparr>, None)"
  by (simp add: load_hcad_def save_hcad_def load_items_save)

lemma load_items_all_ok:
  "map load_item items = map Inr shps \<Longrightarrow> load_items acc items = (acc @ shps, None)"
proof (induction items arbitrary: acc shps)
  case Nil
  then show ?case by simp
next
  case (Cons item items)
  then obtain sh rest where shps: "shps = sh # rest" by (cases shps) auto
  with Cons.prems have "load_item item = Inr sh" and "map load_item items = map Inr rest"
    by simp_all
  with Cons.IH[of rest "acc @ [sh]"] shps show ?case by simp
qed

lemma load_items_stop:
  assumes "map load_item pre = map Inr shps" and "load_item bad = Inl e"
  shows "load_items acc (pre @ bad # rest) = (acc @ shps, Some e)"
  using assms
proof (induction pre arbitrary: acc shps)
  case Nil
  then show ?case by simp
next
  case (Cons item items)
  then obtain sh more where shps: "shps = sh # more" by (cases shps) auto
  with Cons.prems have "load_item item = Inr sh" and "map load_item items = map Inr more"
    by simp_all
  with Cons.IH[of more "acc @ [sh]"] Cons.prems(2) shps show ?case by simp
qed

lemma bad_pair_error: "bad_pair v \<Longrightarrow> \<exists>e. (case py_iter v of Inl e \<Rightarrow> Inl e | Inr args \<Rightarrow> QPointF_new args) = Inl e"
proof (cases v)
  case (JArr vs)
  assume "bad_pair v"
  with JArr have len: "length vs = 1 \<or> 2 < length vs" by simp
  then have "QPointF_new vs = Inl TypeError"
    by (cases vs rule: QPointF_new.cases) auto
  with JArr show ?thesis by simp
qed simp_all

lemma bad_point_field_error:
  "bad_point_field kvs k \<Longrightarrow> \<exists>e. point_field (JObj kvs) k = Inl e"
  using bad_pair_error
  by (auto simp: bad_point_field_def point_field_def split: option.splits)

lemma malformed_record_error: "malformed_record r \<Longrightarrow> \<exists>e. load_item r = Inl e"
proof (cases r)
  case (JObj kvs)
  assume "malformed_record r"
  with JObj consider "map_of kvs ''tool'' = None" | "bad_point_field kvs ''start''"
    | "bad_point_field kvs ''end''" by auto
  then show ?thesis
  proof cases
    case 1
    with JObj show ?thesis by (simp add: load_item_def)
  next
    case 2
    then obtain e where "point_field (JObj kvs) ''start'' = Inl e"
      using bad_point_field_error by blast
    with JObj show ?thesis by (auto simp: load_item_def split: sum.splits)
  next
    case 3
    then obtain e where "point_field (JObj kvs) ''end'' = Inl e"
      using bad_point_field_error by blast
    with JObj show ?thesis by (auto simp: load_item_def split: sum.splits)
  qed
qed simp_all

text \<open>
  Claim C1, as the code has it. When every record loads, \<open>load_hcad\<close> raises nothing
  and the document is exactly the loaded shapes, whatever it held before. When the
  records before a malformed one load and that one has a required field missing or a
  coordinate list of length 1 or more than 2, \<open>load_hcad\<close> raises (a \<^verbatim>\<open>KeyError\<close> or a
  \<^verbatim>\<open>TypeError\<close>; the code has no error type of its own) and the document is left
  holding the shapes loaded before the malformed record, its earlier content gone. The
  tool is not checked: a record with any tool value and two coordinate pairs loads.
\<close>

theorem load_hcad_malformed:
  "(map load_item items = map Inr shps \<longrightarrow>
      load_hcad c (JArr items) = (c\<lparr>shapes := shps\<rparr>, None))
   \<and> (map load_item pre = map Inr shps \<and> malformed_record bad \<longrightarrow>
      (\<exists>e. load_hcad c (JArr (pre @ bad # rest)) = (c\<lparr>shapes := shps\<rparr>, Some e)))
   \<and> load_item (JObj [(''tool'', t), (''start'', JArr [JNum a, JNum b]),
                       (''end'', JArr [JNum a', JNum b'])])
       = Inr (t, QPointF a b, QPointF a' b')"
proof (intro conjI impI)
  assume "map load_item items = map Inr shps"
  then show "load_hcad c (JArr items) = (c\<lparr>shapes := shps\<rparr>, None)"
    by (simp add: load_hcad_def load_items_all_ok)
next
  assume a: "map load_item pre = map Inr shps \<and> malformed_record bad"
  then obtain e where "load_item bad = Inl e" using malformed_record_error by blast
  with a have "load_items [] (pre @ bad # rest) = ([] @ shps, Some e)"
    by (intro load_items_stop) simp_all
  then show "\<exists>e. load_hcad c (JArr (pre @ bad # rest)) = (c\<lparr>shapes := shps\<rparr>, Some e)"
    by (simp add: load_hcad_def)
next
  show "load_item (JObj [(''tool'', t), (''start'', JArr [JNum a, JNum b]),
                       (''end'', JArr [JNum a', JNum b'])])
       = Inr (t, QPointF a b, QPointF a' b')"
    by (simp add: load_item_def point_field_def)
qed

theorem load_hcad_malformed_witness:
  "map load_item [JObj [(''tool'', JStr ''line''), (''start'', JArr [JNum 0, JNum 0]),
                        (''end'', JArr [JNum 20, JNum 40])]]
     = map Inr [(JStr ''line'', QPointF 0 0, QPointF 20 40)]
   \<and> malformed_record (JObj [(''tool'', JStr ''line''), (''start'', JArr [JNum 0, JNum 0])])
   \<and> load_hcad Canvas_init
        (JArr [JObj [(''tool'', JStr ''line''), (''start'', JArr [JNum 0, JNum 0]),
                     (''end'', JArr [JNum 20, JNum 40])]])
      = (Canvas_init\<lparr>shapes := [(JStr ''line'', QPointF 0 0, QPointF 20 40)]\<rparr>, None)
   \<and> (\<exists>e. load_hcad Canvas_init
        (JArr ([JObj [(''tool'', JStr ''line''), (''start'', JArr [JNum 0, JNum 0]),
                      (''end'', JArr [JNum 20, JNum 40])]]
               @ JObj [(''tool'', JStr ''line''), (''start'', JArr [JNum 0, JNum 0])]
               # [JObj [(''tool'', JStr ''circle''), (''start'', JArr [JNum 0, JNum 0]),
                        (''end'', JArr [JNum 60, JNum 80])]]))
      = (Canvas_init\<lparr>shapes := [(JStr ''line'', QPointF 0 0, QPointF 20 40)]\<rparr>, Some e))"
proof -
  let ?good = "JObj [(''tool'', JStr ''line''), (''start'', JArr [JNum 0, JNum 0]),
                     (''end'', JArr [JNum 20, JNum 40])]"
  let ?bad = "JObj [(''tool'', JStr ''line''), (''start'', JArr [JNum 0, JNum 0])]"
  let ?more = "JObj [(''tool'', JStr ''circle''), (''start'', JArr [JNum 0, JNum 0]),
                     (''end'', JArr [JNum 60, JNum 80])]"
  let ?sh = "(JStr ''line'', QPointF 0 0, QPointF 20 40)"
  have ok: "map load_item [?good] = map Inr [?sh]"
    by (simp add: load_item_def point_field_def)
  have bad: "malformed_record ?bad"
    by (simp add: bad_point_field_def)
  from ok bad
    load_hcad_malformed[where items = "[?good]" and shps = "[?sh]" and c = Canvas_init
      and pre = "[?good]" and bad = ?bad and rest = "[?more]"]
  show ?thesis by blast
qed

text \<open>
  Claim C1 as stated fails twice. A record without \<^verbatim>\<open>"end"\<close> makes the load raise
  \<^verbatim>\<open>KeyError\<close>, and the document that held a circle is empty afterwards; and a record
  whose tool is the unknown string \<^verbatim>\<open>"triangle"\<close> loads without an error.
\<close>

theorem load_hcad_atomic_counterexample:
  "load_hcad (Canvas_init\<lparr>shapes := [(JStr ''circle'', QPointF 0 0, QPointF 60 80)]\<rparr>)
     (JArr [JObj [(''tool'', JStr ''line''), (''start'', JArr [JNum 0, JNum 0])]])
   = (Canvas_init\<lparr>shapes := []\<rparr>, Some (KeyError ''end''))
   \<and> load_hcad Canvas_init
       (JArr [JObj [(''tool'', JStr ''triangle''), (''start'', JArr [JNum 0, JNum 0]),
                    (''end'', JArr [JNum 20, JNum 40])]])
     = (Canvas_init\<lparr>shapes := [(JStr ''triangle'', QPointF 0 0, QPointF 20 40)]\<rparr>, None)"
  by (simp add: load_hcad_def load_item_def point_field_def Canvas_init_def)

subsection \<open>Enabling and disabling plugins\<close>

lemma indexOf_range:
  "indexOf tabs w = - 1 \<or> (0 \<le> indexOf tabs w \<and> indexOf tabs w < int (length tabs))"
  by (induction tabs) (auto simp: Let_def)

lemma indexOf_absent: "indexOf tabs w = - 1 \<longleftrightarrow> w \<notin> fst ` set tabs"
proof (induction tabs)
  case Nil
  then show ?case by simp
next
  case (Cons tab tabs)
  have "indexOf tabs w + 1 \<noteq> - 1" using indexOf_range[of tabs w] by auto
  with Cons show ?case by (auto simp: Let_def)
qed

lemma removeTab_indexOf:
  "indexOf tabs w \<noteq> - 1 \<Longrightarrow>
     map fst (removeTab tabs (indexOf tabs w)) = remove1 w (map fst tabs)"
proof (induction tabs)
  case Nil
  then show ?case by simp
next
  case (Cons tab tabs)
  show ?case
  proof (cases "fst tab = w")
    case True
    then show ?thesis by (simp add: removeTab_def)
  next
    case False
    with Cons.prems have ne: "indexOf tabs w \<noteq> - 1" by (auto simp: Let_def split: if_splits)
    then have rng: "0 \<le> indexOf tabs w" "indexOf tabs w < int (length tabs)"
      using indexOf_range[of tabs w] by auto
    from False ne have idx: "indexOf (tab # tabs) w = indexOf tabs w + 1"
      by (simp add: Let_def)
    have "nat (indexOf tabs w + 1) = Suc (nat (indexOf tabs w))" using rng by simp
    with rng have "removeTab (tab # tabs) (indexOf tabs w + 1)
        = tab # removeTab tabs (indexOf tabs w)"
      by (simp add: removeTab_def)
    with idx False Cons.IH[OF ne] show ?thesis by simp
  qed
qed

lemma tab_for_plugin_iff:
  "tab_for_plugin pl name \<longleftrightarrow>
     (\<exists>w. map_of (plugin_widgets pl) name = Some w \<and> w \<in> fst ` set (tab_widget pl))"
  by (force simp: tab_for_plugin_def list_ex_iff image_iff)


lemma enable_plugin_unknown:
  "map_of (plugin_widgets pl) name = None \<Longrightarrow> enable_plugin pl name = pl"
  by (simp add: enable_plugin_def)

lemma disable_plugin_unknown:
  "map_of (plugin_widgets pl) name = None \<Longrightarrow> disable_plugin pl name = pl"
  by (simp add: disable_plugin_def)

lemma enable_plugin_registry [simp]:
  "plugin_widgets (enable_plugin pl name) = plugin_widgets pl"
  "plugins (enable_plugin pl name) = plugins pl"
  by (simp_all add: enable_plugin_def Let_def split: option.splits)

lemma disable_plugin_registry [simp]:
  "plugin_widgets (disable_plugin pl name) = plugin_widgets pl"
  "plugins (disable_plugin pl name) = plugins pl"
  by (simp_all add: disable_plugin_def Let_def split: option.splits)

lemma enable_plugin_tabs:
  assumes "map_of (plugin_widgets pl) name = Some w"
  shows "fst ` set (tab_widget (enable_plugin pl name)) = insert w (fst ` set (tab_widget pl))"
    and "distinct (map fst (tab_widget pl)) \<Longrightarrow>
           distinct (map fst (tab_widget (enable_plugin pl name)))"
  using assms by (auto simp: enable_plugin_def Let_def tab_for_plugin_iff)

lemma disable_plugin_tabs:
  assumes "map_of (plugin_widgets pl) name = Some w"
    and "distinct (map fst (tab_widget pl))"
  shows "fst ` set (tab_widget (disable_plugin pl name)) = fst ` set (tab_widget pl) - {w}"
    and "distinct (map fst (tab_widget (disable_plugin pl name)))"
proof -
  show "fst ` set (tab_widget (disable_plugin pl name)) = fst ` set (tab_widget pl) - {w}"
  proof (cases "indexOf (tab_widget pl) w = - 1")
    case True
    with assms(1) show ?thesis by (simp add: disable_plugin_def indexOf_absent)
  next
    case False
    have "fst ` set (removeTab (tab_widget pl) (indexOf (tab_widget pl) w))
        = set (map fst (removeTab (tab_widget pl) (indexOf (tab_widget pl) w)))" by simp
    also have "\<dots> = set (remove1 w (map fst (tab_widget pl)))"
      by (simp only: removeTab_indexOf[OF False])
    also have "\<dots> = fst ` set (tab_widget pl) - {w}"
      using assms(2) by simp
    finally show ?thesis using assms(1) False by (simp add: disable_plugin_def)
  qed
  show "distinct (map fst (tab_widget (disable_plugin pl name)))"
  proof (cases "indexOf (tab_widget pl) w = - 1")
    case True
    with assms show ?thesis by (simp add: disable_plugin_def)
  next
    case False
    with assms show ?thesis
      by (simp add: disable_plugin_def removeTab_indexOf[OF False])
  qed
qed




subsection \<open>Reconciliation at start-up\<close>

lemma reconcile_step_registry [simp]:
  "plugin_widgets (reconcile_step en n pl) = plugin_widgets pl"
  "plugins (reconcile_step en n pl) = plugins pl"
  by (simp_all add: reconcile_step_def)

lemma reconcile_fold:
  assumes inj: "\<And>n1 n2 w. map_of pw n1 = Some w \<Longrightarrow> map_of pw n2 = Some w \<Longrightarrow> n1 = n2"
  shows "plugin_widgets pl = pw \<Longrightarrow> distinct ns \<Longrightarrow> distinct (map fst (tab_widget pl)) \<Longrightarrow>
     plugin_widgets (fold (reconcile_step en) ns pl) = pw
     \<and> fst ` set (tab_widget (fold (reconcile_step en) ns pl)) =
         (fst ` set (tab_widget pl) - {w. \<exists>n\<in>set ns. n \<notin> set en \<and> map_of pw n = Some w})
         \<union> {w. \<exists>n\<in>set ns. n \<in> set en \<and> map_of pw n = Some w}"
proof (induction ns arbitrary: pl)
  case Nil
  then show ?case by simp
next
  case (Cons n ns)
  let ?pl1 = "reconcile_step en n pl"
  have pw1: "plugin_widgets ?pl1 = pw" using Cons.prems(1) by simp
  have dns: "distinct ns" and nns: "n \<notin> set ns" using Cons.prems(2) by simp_all
  show ?case
  proof (cases "map_of pw n")
    case None
    then have same: "?pl1 = pl"
      using Cons.prems(1)
      by (simp add: reconcile_step_def enable_plugin_unknown disable_plugin_unknown)
    from Cons.IH[OF Cons.prems(1) dns Cons.prems(3)] None same show ?thesis
      by auto
  next
    case (Some w)
    then have m: "map_of (plugin_widgets pl) n = Some w" using Cons.prems(1) by simp
    show ?thesis
    proof (cases "n \<in> set en")
      case True
      then have step: "?pl1 = enable_plugin pl n" by (simp add: reconcile_step_def)
      have t1: "fst ` set (tab_widget ?pl1) = insert w (fst ` set (tab_widget pl))"
        and d1: "distinct (map fst (tab_widget ?pl1))"
        using enable_plugin_tabs[OF m] Cons.prems(3) step by simp_all
      have fresh: "w \<notin> {w. \<exists>n'\<in>set ns. n' \<notin> set en \<and> map_of pw n' = Some w}"
        using inj[OF Some] nns by auto
      from Cons.IH[OF pw1 dns d1] t1 True Some fresh show ?thesis
        by auto
    next
      case False
      then have step: "?pl1 = disable_plugin pl n" by (simp add: reconcile_step_def)
      have t1: "fst ` set (tab_widget ?pl1) = fst ` set (tab_widget pl) - {w}"
        and d1: "distinct (map fst (tab_widget ?pl1))"
        using disable_plugin_tabs[OF m Cons.prems(3)] step by simp_all
      from Cons.IH[OF pw1 dns d1] t1 False Some show ?thesis
        by auto
    qed
  qed
qed

lemma load_plugin_inv:
  assumes "fst ` set (plugin_widgets pl) \<subseteq> fst ` set (plugins pl)"
    and "distinct (map fst (plugins pl))"
  shows "fst ` set (plugin_widgets (load_plugin pl path outcome))
           \<subseteq> fst ` set (plugins (load_plugin pl path outcome))"
    and "distinct (map fst (plugins (load_plugin pl path outcome)))"
    and "tab_widget (load_plugin pl path outcome) = tab_widget pl"
proof -
  have keys: "fst ` set (plugin_widgets (load_plugin pl path outcome))
           \<subseteq> fst ` set (plugins (load_plugin pl path outcome))
      \<and> distinct (map fst (plugins (load_plugin pl path outcome)))"
  proof (cases outcome)
    case (Registered modl wopt)
    show ?thesis
    proof (cases wopt)
      case None
      with Registered assms show ?thesis
        by (simp add: load_plugin_def Let_def dom_update distinct_update) blast
    next
      case (Some w)
      with Registered assms show ?thesis
        by (simp add: load_plugin_def Let_def dom_update distinct_update) blast
    qed
  qed (use assms in \<open>simp_all add: load_plugin_def\<close>)
  then show "fst ` set (plugin_widgets (load_plugin pl path outcome))
           \<subseteq> fst ` set (plugins (load_plugin pl path outcome))"
    and "distinct (map fst (plugins (load_plugin pl path outcome)))" by simp_all
  show "tab_widget (load_plugin pl path outcome) = tab_widget pl"
    by (simp add: load_plugin_def Let_def split: load_outcome.splits option.splits)
qed

lemma load_entries_inv:
  "fst ` set (plugin_widgets pl) \<subseteq> fst ` set (plugins pl) \<Longrightarrow>
   distinct (map fst (plugins pl)) \<Longrightarrow>
     fst ` set (plugin_widgets (load_entries pl folder entries))
           \<subseteq> fst ` set (plugins (load_entries pl folder entries))
     \<and> distinct (map fst (plugins (load_entries pl folder entries)))
     \<and> tab_widget (load_entries pl folder entries) = tab_widget pl"
proof (induction pl folder entries rule: load_entries.induct)
  case (1 pl folder)
  then show ?case by simp
next
  case (2 pl folder filename outcome rest)
  show ?case
  proof (cases "py_endswith filename ''.py''")
    case True
    with "2.IH"(1)[OF True] load_plugin_inv[OF "2.prems"] show ?thesis by simp
  next
    case False
    with "2.IH"(2)[OF False] "2.prems" show ?thesis by simp
  qed
qed

lemma load_plugins_from_folder_inv:
  "fst ` set (plugin_widgets (load_plugins_from_folder PluginLoader_init folder listing))
      \<subseteq> fst ` set (plugins (load_plugins_from_folder PluginLoader_init folder listing))
   \<and> distinct (map fst (plugins (load_plugins_from_folder PluginLoader_init folder listing)))
   \<and> tab_widget (load_plugins_from_folder PluginLoader_init folder listing)
       = [(CanvasWidget, ''Core (2D)'')]"
proof (cases listing)
  case None
  then show ?thesis by (simp add: load_plugins_from_folder_def PluginLoader_init_def)
next
  case (Some entries)
  have "fst ` set (plugin_widgets PluginLoader_init) \<subseteq> fst ` set (plugins PluginLoader_init)"
    and "distinct (map fst (plugins PluginLoader_init))"
    by (simp_all add: PluginLoader_init_def)
  from load_entries_inv[OF this, of folder entries] Some show ?thesis
    by (simp add: load_plugins_from_folder_def PluginLoader_init_def)
qed

lemma map_of_distinct_values:
  assumes "distinct (map snd al)" and "map_of al n1 = Some w" and "map_of al n2 = Some w"
  shows "n1 = n2"
proof -
  from assms(2,3) have "(n1, w) \<in> set al" and "(n2, w) \<in> set al"
    by (auto dest: map_of_SomeD)
  moreover from assms(1) have "inj_on snd (set al)" by (simp add: distinct_map)
  ultimately have "(n1, w) = (n2, w)" by (intro inj_onD[of snd "set al"]) simp_all
  then show ?thesis by simp
qed

text \<open>
  Claim C5, as the code has it. After start-up (the plugins of the folder loaded, then
  each known plugin enabled if its name is in the saved list and disabled otherwise),
  provided no two loaded plugins share one widget, the plugins whose widget is attached
  to the tab container are exactly the loaded plugins with a widget whose name is in the
  saved list, and every tab is the canvas tab or the tab of such a plugin. The registry
  of widgets is the one loading produced, and a saved value that is not a list counts as
  the empty list.
\<close>

theorem startup_reconciliation:
  assumes "distinct (map snd (plugin_widgets
             (load_plugins_from_folder PluginLoader_init PLUGIN_FOLDER listing)))"
  shows "plugin_widgets (HelioCAD_init listing (ListValue names))
           = plugin_widgets (load_plugins_from_folder PluginLoader_init PLUGIN_FOLDER listing)
     \<and> {n. tab_for_plugin (HelioCAD_init listing (ListValue names)) n}
           = {n \<in> fst ` set (plugin_widgets (HelioCAD_init listing (ListValue names))).
                n \<in> set names}
     \<and> fst ` set (tab_widget (HelioCAD_init listing (ListValue names)))
           \<subseteq> insert CanvasWidget
               {w. \<exists>n\<in>set names.
                     map_of (plugin_widgets (HelioCAD_init listing (ListValue names))) n = Some w}
     \<and> HelioCAD_init listing OtherValue = HelioCAD_init listing (ListValue [])"
proof -
  let ?L = "load_plugins_from_folder PluginLoader_init PLUGIN_FOLDER listing"
  let ?pw = "plugin_widgets ?L"
  let ?ns = "map fst (plugins ?L)"
  let ?pl = "HelioCAD_init listing (ListValue names)"
  have inv: "fst ` set ?pw \<subseteq> set ?ns" "distinct ?ns"
    "tab_widget ?L = [(CanvasWidget, ''Core (2D)'')]"
    using load_plugins_from_folder_inv[of PLUGIN_FOLDER listing] by simp_all
  have inj: "\<And>n1 n2 w. map_of ?pw n1 = Some w \<Longrightarrow> map_of ?pw n2 = Some w \<Longrightarrow> n1 = n2"
    using map_of_distinct_values[OF assms] by blast
  have pl: "?pl = fold (reconcile_step names) ?ns ?L"
    by (simp add: HelioCAD_init_def Let_def)
  have fold: "plugin_widgets ?pl = ?pw"
    "fst ` set (tab_widget ?pl) =
       ({CanvasWidget} - {w. \<exists>n\<in>set ?ns. n \<notin> set names \<and> map_of ?pw n = Some w})
       \<union> {w. \<exists>n\<in>set ?ns. n \<in> set names \<and> map_of ?pw n = Some w}"
    using reconcile_fold[of ?pw ?L ?ns names, OF inj refl inv(2)] inv(3) pl by simp_all
  have known: "n \<in> set ?ns" if "map_of ?pw n = Some w" for n w
  proof -
    from that have "(n, w) \<in> set ?pw" by (rule map_of_SomeD)
    then have "n \<in> fst ` set ?pw" by force
    with inv(1) show ?thesis by blast
  qed
  let ?R = "{w. \<exists>n\<in>set ?ns. n \<notin> set names \<and> map_of ?pw n = Some w}"
  let ?A = "{w. \<exists>n\<in>set ?ns. n \<in> set names \<and> map_of ?pw n = Some w}"
  have attached: "tab_for_plugin ?pl n \<longleftrightarrow> n \<in> set names"
    if m: "map_of ?pw n = Some w" for n w
  proof
    assume "tab_for_plugin ?pl n"
    then have "w \<in> fst ` set (tab_widget ?pl)"
      using m fold(1) by (simp add: tab_for_plugin_iff)
    with fold(2) have w: "w \<in> ({CanvasWidget} - ?R) \<union> ?A" by simp
    show "n \<in> set names"
    proof (rule ccontr)
      assume out: "n \<notin> set names"
      with m known[OF m] have "w \<in> ?R" by blast
      with w have "w \<in> ?A" by blast
      then obtain n' where "n' \<in> set names" and "map_of ?pw n' = Some w" by blast
      with inj[OF m] out show False by blast
    qed
  next
    assume "n \<in> set names"
    with m known[OF m] have "w \<in> ?A" by blast
    with fold(2) have "w \<in> fst ` set (tab_widget ?pl)" by simp
    then show "tab_for_plugin ?pl n" using m fold(1) by (simp add: tab_for_plugin_iff)
  qed
  have names_eq: "{n. tab_for_plugin ?pl n} = {n \<in> fst ` set (plugin_widgets ?pl). n \<in> set names}"
  proof (intro set_eqI iffI)
    fix n assume "n \<in> {n. tab_for_plugin ?pl n}"
    then obtain w where m: "map_of ?pw n = Some w" and "tab_for_plugin ?pl n"
      using fold(1) by (auto simp: tab_for_plugin_iff)
    from m have "(n, w) \<in> set ?pw" by (rule map_of_SomeD)
    then have "n \<in> fst ` set ?pw" by force
    with attached[OF m] \<open>tab_for_plugin ?pl n\<close>
    show "n \<in> {n \<in> fst ` set (plugin_widgets ?pl). n \<in> set names}"
      using fold(1) by simp
  next
    fix n assume "n \<in> {n \<in> fst ` set (plugin_widgets ?pl). n \<in> set names}"
    then have "n \<in> fst ` set ?pw" and en: "n \<in> set names" using fold(1) by simp_all
    then obtain w where m: "map_of ?pw n = Some w"
      by (cases "map_of ?pw n") (auto simp: map_of_eq_None_iff)
    with attached[OF m] en show "n \<in> {n. tab_for_plugin ?pl n}" by simp
  qed
  have sub: "fst ` set (tab_widget ?pl)
      \<subseteq> insert CanvasWidget {w. \<exists>n\<in>set names. map_of (plugin_widgets ?pl) n = Some w}"
  proof
    fix w assume "w \<in> fst ` set (tab_widget ?pl)"
    with fold(2) have "w \<in> ({CanvasWidget} - ?R) \<union> ?A" by simp
    then have "w = CanvasWidget \<or> (\<exists>n\<in>set names. map_of ?pw n = Some w)" by blast
    with fold(1)
    show "w \<in> insert CanvasWidget {w. \<exists>n\<in>set names. map_of (plugin_widgets ?pl) n = Some w}"
      by simp
  qed
  have other: "HelioCAD_init listing OtherValue = HelioCAD_init listing (ListValue [])"
    by (simp add: HelioCAD_init_def)
  from fold(1) names_eq sub other show ?thesis by (intro conjI)
qed

text \<open>The folder holds \<^verbatim>\<open>a.py\<close>, \<^verbatim>\<open>b.py\<close>, a text file and \<^verbatim>\<open>c.py\<close>, and the saved list
  is \<^verbatim>\<open>["b"]\<close>: exactly the tab of \<^verbatim>\<open>b\<close> is attached, next to the canvas tab.\<close>

theorem startup_reconciliation_witness:
  "distinct (map snd (plugin_widgets (load_plugins_from_folder PluginLoader_init PLUGIN_FOLDER
      (Some [(''a.py'', Registered 11 (Some (PluginWidget 21))),
             (''b.py'', Registered 12 (Some (PluginWidget 22))),
             (''notes.txt'', NotAFile),
             (''c.py'', Registered 13 (Some (PluginWidget 23)))]))))
   \<and> {n. tab_for_plugin (HelioCAD_init
      (Some [(''a.py'', Registered 11 (Some (PluginWidget 21))),
             (''b.py'', Registered 12 (Some (PluginWidget 22))),
             (''notes.txt'', NotAFile),
             (''c.py'', Registered 13 (Some (PluginWidget 23)))]) (ListValue [''b''])) n} = {''b''}
   \<and> tab_widget (HelioCAD_init
      (Some [(''a.py'', Registered 11 (Some (PluginWidget 21))),
             (''b.py'', Registered 12 (Some (PluginWidget 22))),
             (''notes.txt'', NotAFile),
             (''c.py'', Registered 13 (Some (PluginWidget 23)))]) (ListValue [''b'']))
      = [(CanvasWidget, ''Core (2D)''), (PluginWidget 22, ''B'')]"
proof -
  let ?listing = "Some [(''a.py'', Registered 11 (Some (PluginWidget 21))),
             (''b.py'', Registered 12 (Some (PluginWidget 22))),
             (''notes.txt'', NotAFile),
             (''c.py'', Registered 13 (Some (PluginWidget 23)))]"
  have loaded: "plugin_widgets (load_plugins_from_folder PluginLoader_init PLUGIN_FOLDER ?listing)
      = [(''a'', PluginWidget 21), (''b'', PluginWidget 22), (''c'', PluginWidget 23)]"
    by code_simp
  have d: "distinct (map snd (plugin_widgets
      (load_plugins_from_folder PluginLoader_init PLUGIN_FOLDER ?listing)))"
    by (simp add: loaded)
  have tabs: "tab_widget (HelioCAD_init ?listing (ListValue [''b'']))
      = [(CanvasWidget, ''Core (2D)''), (PluginWidget 22, ''B'')]"
    by code_simp
  from startup_reconciliation[OF d, of "[''b'']"]
  have "{n. tab_for_plugin (HelioCAD_init ?listing (ListValue [''b''])) n}
      = {n \<in> fst ` set [(''a'', PluginWidget 21), (''b'', PluginWidget 22), (''c'', PluginWidget 23)].
           n \<in> set [''b'']}"
    by (simp add: loaded)
  also have "\<dots> = {''b''}" by auto
  finally show ?thesis using d tabs by simp
qed

text \<open>
  Claim C5 as stated fails when two plugins share a widget. \<^verbatim>\<open>a.py\<close> and \<^verbatim>\<open>b.py\<close>
  return the same widget and the saved list is \<^verbatim>\<open>["a"]\<close>: \<^verbatim>\<open>a\<close> is enabled, then
  disabling \<^verbatim>\<open>b\<close> removes the tab, so \<^verbatim>\<open>a\<close> is in the saved list and its widget is not
  attached.
\<close>

theorem shared_widget_counterexample:
  "map_of (plugin_widgets (HelioCAD_init
      (Some [(''a.py'', Registered 11 (Some (PluginWidget 25))),
             (''b.py'', Registered 12 (Some (PluginWidget 25)))]) (ListValue [''a'']))) ''a''
     = Some (PluginWidget 25)
   \<and> ''a'' \<in> set [''a'']
   \<and> tab_widget (HelioCAD_init
      (Some [(''a.py'', Registered 11 (Some (PluginWidget 25))),
             (''b.py'', Registered 12 (Some (PluginWidget 25)))]) (ListValue [''a'']))
     = [(CanvasWidget, ''Core (2D)'')]
   \<and> \<not> tab_for_plugin (HelioCAD_init
      (Some [(''a.py'', Registered 11 (Some (PluginWidget 25))),
             (''b.py'', Registered 12 (Some (PluginWidget 25)))]) (ListValue [''a''])) ''a''"
  by code_simp

end
